theory Spec2Isabelle
  imports Main
begin

section \<open>Python strings\<close>

text \<open>
  A Python \<^verbatim>\<open>str\<close> is a sequence of Unicode code points, lone surrogates included.
  A code point is a natural number; a \<^verbatim>\<open>bytes\<close> object is a list of numbers below 256.
  The characters the program and \<^verbatim>\<open>urllib.parse\<close> name are abbreviated below.
\<close>

type_synonym codepoint = nat
type_synonym str = "codepoint list"
type_synonym bytes = "nat list"

definition str_of :: "string \<Rightarrow> str" where
  "str_of s = map of_char s"

abbreviation TAB :: codepoint where "TAB \<equiv> 9"
abbreviation LF :: codepoint where "LF \<equiv> 10"
abbreviation CR :: codepoint where "CR \<equiv> 13"
abbreviation SPACE :: codepoint where "SPACE \<equiv> 32"
abbreviation HASH :: codepoint where "HASH \<equiv> 35"
abbreviation PERCENT :: codepoint where "PERCENT \<equiv> 37"
abbreviation AMP :: codepoint where "AMP \<equiv> 38"
abbreviation PLUS :: codepoint where "PLUS \<equiv> 43"
abbreviation MINUS :: codepoint where "MINUS \<equiv> 45"
abbreviation DOT :: codepoint where "DOT \<equiv> 46"
abbreviation SLASH :: codepoint where "SLASH \<equiv> 47"
abbreviation COLON :: codepoint where "COLON \<equiv> 58"
abbreviation SEMI :: codepoint where "SEMI \<equiv> 59"
abbreviation EQUALS :: codepoint where "EQUALS \<equiv> 61"
abbreviation QMARK :: codepoint where "QMARK \<equiv> 63"
abbreviation ATSIGN :: codepoint where "ATSIGN \<equiv> 64"
abbreviation LBRACK :: codepoint where "LBRACK \<equiv> 91"
abbreviation RBRACK :: codepoint where "RBRACK \<equiv> 93"
abbreviation USCORE :: codepoint where "USCORE \<equiv> 95"
abbreviation TILDE :: codepoint where "TILDE \<equiv> 126"

definition is_ascii :: "codepoint \<Rightarrow> bool" where
  "is_ascii c = (c < 128)"

definition is_digit :: "codepoint \<Rightarrow> bool" where
  "is_digit c = (48 \<le> c \<and> c \<le> 57)"

definition is_upper :: "codepoint \<Rightarrow> bool" where
  "is_upper c = (65 \<le> c \<and> c \<le> 90)"

definition is_lower :: "codepoint \<Rightarrow> bool" where
  "is_lower c = (97 \<le> c \<and> c \<le> 122)"

definition is_alpha :: "codepoint \<Rightarrow> bool" where
  "is_alpha c = (is_upper c \<or> is_lower c)"

definition is_hex :: "codepoint \<Rightarrow> bool" where
  "is_hex c = (is_digit c \<or> (65 \<le> c \<and> c \<le> 70) \<or> (97 \<le> c \<and> c \<le> 102))"

definition ascii_lower :: "codepoint \<Rightarrow> codepoint" where
  "ascii_lower c = (if is_upper c then c + 32 else c)"

text \<open>
  \<^verbatim>\<open>s[:s.find(c)]\<close> and \<^verbatim>\<open>s[s.find(c)+1:]\<close> for a character \<open>c\<close> that occurs in \<open>s\<close>;
  together they are \<^verbatim>\<open>s.split(c, 1)\<close> and the outer parts of \<^verbatim>\<open>s.partition(c)\<close>.
  Where \<open>c\<close> does not occur, \<open>before\<close> is all of \<open>s\<close> and \<open>after\<close> is empty, as
  \<^verbatim>\<open>partition\<close> has it.
\<close>

definition before :: "codepoint \<Rightarrow> str \<Rightarrow> str" where
  "before c s = takeWhile (\<lambda>x. x \<noteq> c) s"

definition after :: "codepoint \<Rightarrow> str \<Rightarrow> str" where
  "after c s = tl (dropWhile (\<lambda>x. x \<noteq> c) s)"

text \<open>\<^verbatim>\<open>s.split(c)\<close>: the fields between the occurrences of \<open>c\<close>, never an empty list.\<close>

fun split_on :: "codepoint \<Rightarrow> str \<Rightarrow> str list" where
  "split_on c [] = [[]]"
| "split_on c (x # xs) =
     (if x = c then [] # split_on c xs
      else (x # hd (split_on c xs)) # tl (split_on c xs))"

text \<open>\<^verbatim>\<open>sep.join(l)\<close> for a one-character separator.\<close>

fun join :: "codepoint \<Rightarrow> str list \<Rightarrow> str" where
  "join c [] = []"
| "join c [x] = x"
| "join c (x # y # ys) = x @ c # join c (y # ys)"

section \<open>The exceptions of the redaction path\<close>

datatype py_exception =
    Invalid_IPv6_URL
  | Invalid_bracketed_host
  | Invalid_netloc_NFKC
  | UnicodeEncodeError
  | KeyboardInterrupt
  | SystemExit

text \<open>
  The first three are the \<^verbatim>\<open>ValueError\<close>s of \<^verbatim>\<open>urlsplit\<close>, the fourth is what
  \<^verbatim>\<open>str.encode\<close> raises inside \<^verbatim>\<open>quote\<close>: all four derive from \<^verbatim>\<open>Exception\<close>.
  \<^verbatim>\<open>KeyboardInterrupt\<close> and \<^verbatim>\<open>SystemExit\<close> derive from \<^verbatim>\<open>BaseException\<close> only, so a clause
  \<^verbatim>\<open>except Exception\<close> lets them pass.
\<close>

fun is_Exception :: "py_exception \<Rightarrow> bool" where
  "is_Exception Invalid_IPv6_URL = True"
| "is_Exception Invalid_bracketed_host = True"
| "is_Exception Invalid_netloc_NFKC = True"
| "is_Exception UnicodeEncodeError = True"
| "is_Exception KeyboardInterrupt = False"
| "is_Exception SystemExit = False"

text \<open>
  Three library lookups rest on tables outside the program and \<^verbatim>\<open>urllib.parse\<close>: the
  Unicode database (\<^verbatim>\<open>str.isalnum\<close> of a code point beyond ASCII, which decides
  \<^verbatim>\<open>\w\<close> and so \<^verbatim>\<open>\b\<close> in the pattern), NFKC normalisation in \<^verbatim>\<open>_checknetloc\<close>, and the
  address grammar of \<^verbatim>\<open>ipaddress\<close> in \<^verbatim>\<open>_check_bracketed_host\<close>. They are parameters of
  the model: every theorem holds whatever they answer.
\<close>

record pylib =
  unicode_isalnum :: "codepoint \<Rightarrow> bool"
  nfkc_rejects :: "str \<Rightarrow> bool"
  bracketed_host_rejects :: "str \<Rightarrow> bool"

section \<open>urllib.parse: splitting and joining a URL\<close>

definition uses_netloc :: "str list" where
  "uses_netloc = map str_of
     ['''', ''ftp'', ''http'', ''gopher'', ''nntp'', ''telnet'',
      ''imap'', ''wais'', ''file'', ''mms'', ''https'', ''shttp'',
      ''snews'', ''prospero'', ''rtsp'', ''rtsps'', ''rtspu'', ''rsync'',
      ''svn'', ''svn+ssh'', ''sftp'', ''nfs'', ''git'', ''git+ssh'',
      ''ws'', ''wss'']"

definition uses_params :: "str list" where
  "uses_params = map str_of
     ['''', ''ftp'', ''hdl'', ''prospero'', ''http'', ''imap'',
      ''https'', ''shttp'', ''rtsp'', ''rtsps'', ''rtspu'', ''sip'',
      ''sips'', ''mms'', ''sftp'', ''tel'']"

definition scheme_char :: "codepoint \<Rightarrow> bool" where
  "scheme_char c = (is_alpha c \<or> is_digit c \<or> c = PLUS \<or> c = MINUS \<or> c = DOT)"

text \<open>\<^verbatim>\<open>url.lstrip(_WHATWG_C0_CONTROL_OR_SPACE)\<close>: the code points 0 to 32 are stripped.\<close>

definition lstrip_c0 :: "str \<Rightarrow> str" where
  "lstrip_c0 url = dropWhile (\<lambda>c. c \<le> SPACE) url"

text \<open>\<^verbatim>\<open>for b in _UNSAFE_URL_BYTES_TO_REMOVE: url = url.replace(b, "")\<close>\<close>

definition remove_unsafe :: "str \<Rightarrow> str" where
  "remove_unsafe url = filter (\<lambda>c. c \<noteq> TAB \<and> c \<noteq> CR \<and> c \<noteq> LF) url"

text \<open>
  The scheme of \<^verbatim>\<open>urlsplit\<close>: \<^verbatim>\<open>i = url.find(':')\<close>, \<^verbatim>\<open>i > 0\<close>, the first character an
  ASCII letter and every character of \<^verbatim>\<open>url[:i]\<close> in \<^verbatim>\<open>scheme_chars\<close>.
\<close>

definition has_scheme :: "str \<Rightarrow> bool" where
  "has_scheme url =
     (COLON \<in> set url \<and> before COLON url \<noteq> [] \<and> is_alpha (hd url) \<and>
      list_all scheme_char (before COLON url))"

definition split_scheme :: "str \<Rightarrow> str \<times> str" where
  "split_scheme url =
     (if has_scheme url then (map ascii_lower (before COLON url), after COLON url)
      else ([], url))"

definition not_delim :: "codepoint \<Rightarrow> bool" where
  "not_delim c = (c \<noteq> SLASH \<and> c \<noteq> QMARK \<and> c \<noteq> HASH)"

text \<open>\<^verbatim>\<open>if url[:2] == '//': netloc, url = _splitnetloc(url, 2)\<close>\<close>

definition split_netloc :: "str \<Rightarrow> str \<times> str" where
  "split_netloc url =
     (if take 2 url = [SLASH, SLASH]
      then (takeWhile not_delim (drop 2 url), dropWhile not_delim (drop 2 url))
      else ([], url))"

text \<open>
  The bracket checks of \<^verbatim>\<open>urlsplit\<close>. The source runs them only under
  \<^verbatim>\<open>url[:2] == '//'\<close>; elsewhere the netloc is empty and they pass.
\<close>

definition check_brackets :: "pylib \<Rightarrow> str \<Rightarrow> py_exception option" where
  "check_brackets L nl =
     (if (LBRACK \<in> set nl \<and> RBRACK \<notin> set nl) \<or> (RBRACK \<in> set nl \<and> LBRACK \<notin> set nl)
      then Some Invalid_IPv6_URL
      else if LBRACK \<in> set nl \<and> RBRACK \<in> set nl \<and>
              bracketed_host_rejects L (before RBRACK (after LBRACK nl))
      then Some Invalid_bracketed_host
      else None)"

text \<open>\<^verbatim>\<open>_checknetloc\<close>: nothing to check for an empty or an ASCII netloc.\<close>

definition checknetloc :: "pylib \<Rightarrow> str \<Rightarrow> py_exception option" where
  "checknetloc L nl =
     (if nl = [] \<or> list_all is_ascii nl then None
      else if nfkc_rejects L nl then Some Invalid_netloc_NFKC
      else None)"

definition split_fragment :: "str \<Rightarrow> str \<times> str" where
  "split_fragment url = (if HASH \<in> set url then (before HASH url, after HASH url) else (url, []))"

definition split_query :: "str \<Rightarrow> str \<times> str" where
  "split_query url = (if QMARK \<in> set url then (before QMARK url, after QMARK url) else (url, []))"

text \<open>\<^verbatim>\<open>urlsplit(url)\<close>: scheme, netloc, path, query, fragment, or a \<^verbatim>\<open>ValueError\<close>.\<close>

definition urlsplit :: "pylib \<Rightarrow> str \<Rightarrow> py_exception + (str \<times> str \<times> str \<times> str \<times> str)" where
  "urlsplit L url0 =
     (let url1 = remove_unsafe (lstrip_c0 url0);
          sch = fst (split_scheme url1);
          url2 = snd (split_scheme url1);
          nl = fst (split_netloc url2);
          url3 = snd (split_netloc url2)
      in case check_brackets L nl of
           Some e \<Rightarrow> Inl e
         | None \<Rightarrow>
            (let frag = snd (split_fragment url3);
                 url4 = fst (split_fragment url3);
                 qry = snd (split_query url4);
                 url5 = fst (split_query url4)
             in case checknetloc L nl of
                  Some e \<Rightarrow> Inl e
                | None \<Rightarrow> Inr (sch, nl, url5, qry, frag)))"

text \<open>
  \<^verbatim>\<open>_splitparams\<close>: the first \<^verbatim>\<open>;\<close> at or after the last \<^verbatim>\<open>/\<close>, or the first one of
  all when the path has no \<^verbatim>\<open>/\<close> (the caller has checked that one is there).
\<close>

definition last_segment :: "str \<Rightarrow> str" where
  "last_segment url = rev (takeWhile (\<lambda>c. c \<noteq> SLASH) (rev url))"

definition upto_last_slash :: "str \<Rightarrow> str" where
  "upto_last_slash url = rev (dropWhile (\<lambda>c. c \<noteq> SLASH) (rev url))"

definition splitparams :: "str \<Rightarrow> str \<times> str" where
  "splitparams url =
     (if SLASH \<in> set url then
        (if SEMI \<in> set (last_segment url)
         then (upto_last_slash url @ before SEMI (last_segment url), after SEMI (last_segment url))
         else (url, []))
      else (before SEMI url, after SEMI url))"

record ParseResult =
  scheme :: str
  netloc :: str
  path :: str
  params :: str
  query :: str
  fragment :: str

definition urlparse :: "pylib \<Rightarrow> str \<Rightarrow> py_exception + ParseResult" where
  "urlparse L url =
     (case urlsplit L url of
        Inl e \<Rightarrow> Inl e
      | Inr (sch, nl, u, qry, frag) \<Rightarrow>
          (if sch \<in> set uses_params \<and> SEMI \<in> set u
           then Inr \<lparr>scheme = sch, netloc = nl, path = fst (splitparams u),
                     params = snd (splitparams u), query = qry, fragment = frag\<rparr>
           else Inr \<lparr>scheme = sch, netloc = nl, path = u, params = [],
                     query = qry, fragment = frag\<rparr>))"

definition urlunsplit :: "str \<times> str \<times> str \<times> str \<times> str \<Rightarrow> str" where
  "urlunsplit c =
     (case c of (sch, nl, u, qry, frag) \<Rightarrow>
       (let u1 = (if nl \<noteq> [] \<or> (sch \<noteq> [] \<and> sch \<in> set uses_netloc) \<or> take 2 u = [SLASH, SLASH]
                  then [SLASH, SLASH] @ nl @ (if u \<noteq> [] \<and> take 1 u \<noteq> [SLASH] then SLASH # u else u)
                  else u);
            u2 = (if sch \<noteq> [] then sch @ COLON # u1 else u1);
            u3 = (if qry \<noteq> [] then u2 @ QMARK # qry else u2)
        in if frag \<noteq> [] then u3 @ HASH # frag else u3))"

definition urlunparse :: "ParseResult \<Rightarrow> str" where
  "urlunparse p =
     urlunsplit (scheme p, netloc p,
                 (if params p \<noteq> [] then path p @ SEMI # params p else path p),
                 query p, fragment p)"

section \<open>UTF-8\<close>

text \<open>
  \<^verbatim>\<open>str.encode('utf-8', 'strict')\<close>: a surrogate has no encoding and raises
  \<^verbatim>\<open>UnicodeEncodeError\<close>. (A number from 0x110000 on is no code point of a Python string;
  the model gives it no encoding either.)
\<close>

definition utf8_encode_cp :: "codepoint \<Rightarrow> bytes option" where
  "utf8_encode_cp c =
     (if c < 0x80 then Some [c]
      else if c < 0x800 then Some [0xC0 + c div 64, 0x80 + c mod 64]
      else if 0xD800 \<le> c \<and> c \<le> 0xDFFF then None
      else if c < 0x10000 then
        Some [0xE0 + c div 4096, 0x80 + (c div 64) mod 64, 0x80 + c mod 64]
      else if c < 0x110000 then
        Some [0xF0 + c div 262144, 0x80 + (c div 4096) mod 64,
              0x80 + (c div 64) mod 64, 0x80 + c mod 64]
      else None)"

fun utf8_encode :: "str \<Rightarrow> bytes option" where
  "utf8_encode [] = Some []"
| "utf8_encode (c # cs) =
     (case utf8_encode_cp c of
        None \<Rightarrow> None
      | Some bs \<Rightarrow> (case utf8_encode cs of None \<Rightarrow> None | Some r \<Rightarrow> Some (bs @ r)))"

text \<open>
  \<^verbatim>\<open>bytes.decode('utf-8', 'replace')\<close>, as CPython's decoder reports errors: an invalid
  start byte is one error; a sequence cut short by a bad continuation byte is one error
  up to that byte; a sequence cut short by the end of the data is one error to the end.
  Each error becomes one U+FFFD.
\<close>

abbreviation REPLACEMENT :: codepoint where "REPLACEMENT \<equiv> 0xFFFD"

definition is_cont :: "nat \<Rightarrow> bool" where
  "is_cont b = (0x80 \<le> b \<and> b < 0xC0)"

text \<open>The second byte after a three-byte lead: no overlong form, no surrogate.\<close>

definition second_ok3 :: "nat \<Rightarrow> nat \<Rightarrow> bool" where
  "second_ok3 b b1 = (is_cont b1 \<and> \<not> (b = 0xE0 \<and> b1 < 0xA0) \<and> \<not> (b = 0xED \<and> 0xA0 \<le> b1))"

text \<open>The second byte after a four-byte lead: no overlong form, nothing above U+10FFFF.\<close>

definition second_ok4 :: "nat \<Rightarrow> nat \<Rightarrow> bool" where
  "second_ok4 b b1 = (is_cont b1 \<and> \<not> (b = 0xF0 \<and> b1 < 0x90) \<and> \<not> (b = 0xF4 \<and> 0x90 \<le> b1))"

fun utf8_decode :: "bytes \<Rightarrow> str" where
  "utf8_decode [] = []"
| "utf8_decode (b # bs) =
     (if b < 0x80 then b # utf8_decode bs
      else if b < 0xC2 then REPLACEMENT # utf8_decode bs
      else if b < 0xE0 then
        (case bs of
           [] \<Rightarrow> [REPLACEMENT]
         | b1 # r1 \<Rightarrow>
             if is_cont b1 then ((b - 0xC0) * 64 + (b1 - 0x80)) # utf8_decode r1
             else REPLACEMENT # utf8_decode bs)
      else if b < 0xF0 then
        (case bs of
           [] \<Rightarrow> [REPLACEMENT]
         | b1 # r1 \<Rightarrow>
             if \<not> second_ok3 b b1 then REPLACEMENT # utf8_decode bs
             else (case r1 of
                     [] \<Rightarrow> [REPLACEMENT]
                   | b2 # r2 \<Rightarrow>
                       if is_cont b2
                       then ((b - 0xE0) * 4096 + (b1 - 0x80) * 64 + (b2 - 0x80)) # utf8_decode r2
                       else REPLACEMENT # utf8_decode r1))
      else if b < 0xF5 then
        (case bs of
           [] \<Rightarrow> [REPLACEMENT]
         | b1 # r1 \<Rightarrow>
             if \<not> second_ok4 b b1 then REPLACEMENT # utf8_decode bs
             else (case r1 of
                     [] \<Rightarrow> [REPLACEMENT]
                   | b2 # r2 \<Rightarrow>
                       if \<not> is_cont b2 then REPLACEMENT # utf8_decode r1
                       else (case r2 of
                               [] \<Rightarrow> [REPLACEMENT]
                             | b3 # r3 \<Rightarrow>
                                 if is_cont b3
                                 then ((b - 0xF0) * 262144 + (b1 - 0x80) * 4096 +
                                       (b2 - 0x80) * 64 + (b3 - 0x80)) # utf8_decode r3
                                 else REPLACEMENT # utf8_decode r2)))
      else REPLACEMENT # utf8_decode bs)"

section \<open>urllib.parse: quoting\<close>

definition hexval :: "codepoint \<Rightarrow> nat" where
  "hexval c = (if is_digit c then c - 48 else if c \<le> 70 then c - 55 else c - 87)"

text \<open>
  \<^verbatim>\<open>unquote_to_bytes\<close> on an ASCII string: the source splits at \<^verbatim>\<open>%\<close> and turns each
  item that starts with two hex digits into that byte and the rest of the item, and puts
  the \<^verbatim>\<open>%\<close> back before every other item. An item holds no \<^verbatim>\<open>%\<close>, so a scan
  from the left does the same.
\<close>

fun unquote_to_bytes :: "str \<Rightarrow> bytes" where
  "unquote_to_bytes [] = []"
| "unquote_to_bytes (c # cs) =
     (if c = PERCENT then
        (case cs of
           h1 # h2 # r \<Rightarrow>
             if is_hex h1 \<and> is_hex h2 then (hexval h1 * 16 + hexval h2) # unquote_to_bytes r
             else PERCENT # unquote_to_bytes cs
         | _ \<Rightarrow> PERCENT # unquote_to_bytes cs)
      else c # unquote_to_bytes cs)"

text \<open>
  \<^verbatim>\<open>unquote\<close>: \<^verbatim>\<open>_asciire.split\<close> cuts the string into its maximal ASCII runs and the
  text between them; each ASCII run is unquoted to bytes and decoded, the rest is kept.
  \<open>run\<close> is the ASCII run read so far.
\<close>

fun unquote_runs :: "str \<Rightarrow> str \<Rightarrow> str" where
  "unquote_runs run [] = utf8_decode (unquote_to_bytes run)"
| "unquote_runs run (c # cs) =
     (if is_ascii c then unquote_runs (run @ [c]) cs
      else utf8_decode (unquote_to_bytes run) @ c # unquote_runs [] cs)"

definition unquote :: "str \<Rightarrow> str" where
  "unquote s = (if PERCENT \<notin> set s then s else unquote_runs [] s)"

definition unquote_plus :: "str \<Rightarrow> str" where
  "unquote_plus s = unquote (map (\<lambda>c. if c = PLUS then SPACE else c) s)"

definition always_safe :: "nat \<Rightarrow> bool" where
  "always_safe b =
     (is_alpha b \<or> is_digit b \<or> b = USCORE \<or> b = DOT \<or> b = MINUS \<or> b = TILDE)"

definition hexdigit :: "nat \<Rightarrow> codepoint" where
  "hexdigit n = (if n < 10 then 48 + n else 55 + n)"

text \<open>\<^verbatim>\<open>_Quoter.__missing__\<close>: \<^verbatim>\<open>chr(b) if b in self.safe else '%{:02X}'.format(b)\<close>\<close>

definition quoter :: "bytes \<Rightarrow> nat \<Rightarrow> str" where
  "quoter safe b =
     (if always_safe b \<or> b \<in> set safe then [b]
      else [PERCENT, hexdigit (b div 16), hexdigit (b mod 16)])"

text \<open>
  \<^verbatim>\<open>quote_from_bytes\<close>: the source returns the bytes as they are when all of them are
  safe, which is what quoting each of them gives.
\<close>

definition quote_from_bytes :: "bytes \<Rightarrow> bytes \<Rightarrow> str" where
  "quote_from_bytes safe bs = concat (map (quoter safe) bs)"

definition quote :: "bytes \<Rightarrow> str \<Rightarrow> str option" where
  "quote safe s =
     (if s = [] then Some []
      else (case utf8_encode s of None \<Rightarrow> None | Some bs \<Rightarrow> Some (quote_from_bytes safe bs)))"

definition quote_plus :: "str \<Rightarrow> str option" where
  "quote_plus s =
     (if SPACE \<notin> set s then quote [] s
      else (case quote [SPACE] s of
              None \<Rightarrow> None
            | Some q \<Rightarrow> Some (map (\<lambda>c. if c = SPACE then PLUS else c) q)))"

section \<open>urllib.parse: the query string\<close>

text \<open>
  \<^verbatim>\<open>parse_qsl(qs, keep_blank_values)\<close> with the other arguments at their defaults
  (separator \<^verbatim>\<open>&\<close>, no strict parsing, UTF-8 with replacement).
\<close>

definition parse_field :: "bool \<Rightarrow> str \<Rightarrow> (str \<times> str) list" where
  "parse_field keep_blank_values name_value =
     (if name_value \<noteq> [] \<and> (after EQUALS name_value \<noteq> [] \<or> keep_blank_values)
      then [(unquote_plus (before EQUALS name_value), unquote_plus (after EQUALS name_value))]
      else [])"

definition parse_qsl :: "bool \<Rightarrow> str \<Rightarrow> (str \<times> str) list" where
  "parse_qsl keep_blank_values qs =
     (if qs = [] then []
      else concat (map (parse_field keep_blank_values) (split_on AMP qs)))"

text \<open>
  A Python \<^verbatim>\<open>dict\<close> from names to lists of values keeps its keys in insertion order and
  a key keeps its place when its value is replaced: an association list with distinct
  keys.
\<close>

type_synonym qdict = "(str \<times> str list) list"

definition dict_has :: "qdict \<Rightarrow> str \<Rightarrow> bool" where
  "dict_has d k = (k \<in> set (map fst d))"

definition dict_get :: "qdict \<Rightarrow> str \<Rightarrow> str list option" where
  "dict_get d k = map_of d k"

text \<open>\<^verbatim>\<open>d[k] = v\<close>\<close>

definition dict_set :: "qdict \<Rightarrow> str \<Rightarrow> str list \<Rightarrow> qdict" where
  "dict_set d k v =
     (if dict_has d k then map (\<lambda>(k', v'). if k' = k then (k', v) else (k', v')) d
      else d @ [(k, v)])"

text \<open>
  The loop of \<^verbatim>\<open>parse_qs\<close>:
  \<^verbatim>\<open>if name in parsed_result: parsed_result[name].append(value)\<close>
  \<^verbatim>\<open>else: parsed_result[name] = [value]\<close>
\<close>

definition parse_qs_add :: "qdict \<Rightarrow> str \<times> str \<Rightarrow> qdict" where
  "parse_qs_add d nv =
     (if dict_has d (fst nv)
      then map (\<lambda>(k', v'). if k' = fst nv then (k', v' @ [snd nv]) else (k', v')) d
      else d @ [(fst nv, [snd nv])])"

definition parse_qs :: "str \<Rightarrow> qdict" where
  "parse_qs qs = foldl parse_qs_add [] (parse_qsl False qs)"

text \<open>
  \<^verbatim>\<open>urlencode(query, doseq=True)\<close> on such a dict: for every key, one field
  \<^verbatim>\<open>quote_plus(k) + '=' + quote_plus(elt)\<close> for every element of its list, joined by
  \<^verbatim>\<open>&\<close>. It raises what \<^verbatim>\<open>quote_plus\<close> raises.
\<close>

fun encode_values :: "str \<Rightarrow> str list \<Rightarrow> str list option" where
  "encode_values k [] = Some []"
| "encode_values k (v # vs) =
     (case quote_plus v of
        None \<Rightarrow> None
      | Some v' \<Rightarrow>
          (case encode_values k vs of None \<Rightarrow> None | Some r \<Rightarrow> Some ((k @ EQUALS # v') # r)))"

fun encode_items :: "qdict \<Rightarrow> str list option" where
  "encode_items [] = Some []"
| "encode_items ((k, vs) # d) =
     (case quote_plus k of
        None \<Rightarrow> None
      | Some k' \<Rightarrow>
          (case encode_values k' vs of
             None \<Rightarrow> None
           | Some l \<Rightarrow> (case encode_items d of None \<Rightarrow> None | Some r \<Rightarrow> Some (l @ r))))"

definition urlencode :: "qdict \<Rightarrow> py_exception + str" where
  "urlencode d =
     (case encode_items d of None \<Rightarrow> Inl UnicodeEncodeError | Some l \<Rightarrow> Inr (join AMP l))"

section \<open>redact\_url\_parameters\<close>

text \<open>
  \<^verbatim>\<open>for param in params_to_redact:\<close>
  \<^verbatim>\<open>    if param in query_params: query_params[param] = [redaction_string]\<close>
\<close>

fun redact_params :: "qdict \<Rightarrow> str list \<Rightarrow> str \<Rightarrow> qdict" where
  "redact_params d [] redaction_string = d"
| "redact_params d (param # ps) redaction_string =
     redact_params (if dict_has d param then dict_set d param [redaction_string] else d)
       ps redaction_string"

text \<open>The body of the \<^verbatim>\<open>try\<close>: the redacted URL, or the exception it raises.\<close>

definition redact_try :: "pylib \<Rightarrow> str \<Rightarrow> str list \<Rightarrow> str \<Rightarrow> py_exception + str" where
  "redact_try L url params_to_redact redaction_string =
     (case urlparse L url of
        Inl e \<Rightarrow> Inl e
      | Inr parsed_url \<Rightarrow>
          (case urlencode (redact_params (parse_qs (query parsed_url))
                             params_to_redact redaction_string) of
             Inl e \<Rightarrow> Inl e
           | Inr redacted_query \<Rightarrow>
               Inr (urlunparse (parsed_url\<lparr>query := redacted_query\<rparr>))))"

text \<open>
  The logging module: the five levels \<^verbatim>\<open>--log_level\<close> offers and their numbers.
  \<^verbatim>\<open>main\<close> sets the root logger to the chosen level
  (\<^verbatim>\<open>logging.getLogger().setLevel(args.log_level)\<close>), and \<^verbatim>\<open>logging.error(msg)\<close> hands
  its record to the handler when that level is at most ERROR.
\<close>

datatype log_level = DEBUG | INFO | WARNING | ERROR | CRITICAL

fun level_no :: "log_level \<Rightarrow> nat" where
  "level_no DEBUG = 10"
| "level_no INFO = 20"
| "level_no WARNING = 30"
| "level_no ERROR = 40"
| "level_no CRITICAL = 50"

record log_record =
  level :: log_level
  about_url :: str
  raised :: py_exception

text \<open>\<^verbatim>\<open>logging.error(f"Error redacting URL {url}: {e}")\<close> under a root logger level.\<close>

definition logging_error :: "log_level \<Rightarrow> str \<Rightarrow> py_exception \<Rightarrow> log_record list" where
  "logging_error root_level url e =
     (if level_no root_level \<le> level_no ERROR
      then [\<lparr>level = ERROR, about_url = url, raised = e\<rparr>]
      else [])"

text \<open>
  A call of \<^verbatim>\<open>redact_url_parameters\<close>: what it returns or raises, and the records it
  logs. \<^verbatim>\<open>except Exception as e\<close> catches an exception of the body when it derives
  from \<^verbatim>\<open>Exception\<close>, logs it and returns the URL; any other exception leaves the call.
\<close>

definition redact_url_parameters_run ::
    "pylib \<Rightarrow> log_level \<Rightarrow> str \<Rightarrow> str list \<Rightarrow> str \<Rightarrow> (py_exception + str) \<times> log_record list" where
  "redact_url_parameters_run L root_level url params_to_redact redaction_string =
     (case redact_try L url params_to_redact redaction_string of
        Inr redacted_url \<Rightarrow> (Inr redacted_url, [])
      | Inl e \<Rightarrow>
          if is_Exception e then (Inr url, logging_error root_level url e)
          else (Inl e, []))"

text \<open>
  The string a call returns, as \<^verbatim>\<open>replace_url\<close> uses it in \<^verbatim>\<open>process_line\<close>; the
  totality theorem below shows that every call returns this string.
\<close>

definition redact_url_parameters :: "pylib \<Rightarrow> str \<Rightarrow> str list \<Rightarrow> str \<Rightarrow> str" where
  "redact_url_parameters L url params_to_redact redaction_string =
     (case redact_try L url params_to_redact redaction_string of
        Inr redacted_url \<Rightarrow> redacted_url
      | Inl e \<Rightarrow> url)"

section \<open>The pattern of process\_line\<close>

datatype regex =
    Eps
  | Chr codepoint
  | Cls "(codepoint \<times> codepoint) list"
  | Dot_any
  | Bnd
  | Seq regex regex
  | Alt regex regex
  | Star regex
  | Plus regex
  | Opt regex

definition in_class :: "(codepoint \<times> codepoint) list \<Rightarrow> codepoint \<Rightarrow> bool" where
  "in_class rs c = list_ex (\<lambda>r. fst r \<le> c \<and> c \<le> snd r) rs"

definition is_word :: "pylib \<Rightarrow> codepoint \<Rightarrow> bool" where
  "is_word L c =
     (if is_ascii c then is_alpha c \<or> is_digit c \<or> c = USCORE else unicode_isalnum L c)"

definition at_boundary :: "pylib \<Rightarrow> str \<Rightarrow> nat \<Rightarrow> bool" where
  "at_boundary L s i =
     ((0 < i \<and> i \<le> length s \<and> is_word L (s ! (i - 1))) \<noteq> (i < length s \<and> is_word L (s ! i)))"

primrec weight :: "regex \<Rightarrow> nat" where
  "weight Eps = 0"
| "weight (Chr c) = 0"
| "weight (Cls rs) = 0"
| "weight Dot_any = 0"
| "weight Bnd = 0"
| "weight (Seq r1 r2) = Suc (weight r1 + weight r2)"
| "weight (Alt r1 r2) = Suc (weight r1 + weight r2)"
| "weight (Star r) = Suc (weight r)"
| "weight (Plus r) = Suc (Suc (weight r))"
| "weight (Opt r) = Suc (weight r)"

function ends :: "pylib \<Rightarrow> str \<Rightarrow> regex \<Rightarrow> nat \<Rightarrow> nat list" where
  "ends L s Eps i = [i]"
| "ends L s (Chr c) i = (if i < length s \<and> s ! i = c then [Suc i] else [])"
| "ends L s (Cls rs) i = (if i < length s \<and> in_class rs (s ! i) then [Suc i] else [])"
| "ends L s Dot_any i = (if i < length s \<and> s ! i \<noteq> LF then [Suc i] else [])"
| "ends L s Bnd i = (if at_boundary L s i then [i] else [])"
| "ends L s (Seq r1 r2) i = concat (map (ends L s r2) (ends L s r1 i))"
| "ends L s (Alt r1 r2) i = ends L s r1 i @ ends L s r2 i"
| "ends L s (Opt r) i = ends L s r i @ [i]"
| "ends L s (Plus r) i = concat (map (ends L s (Star r)) (ends L s r i))"
| "ends L s (Star r) i =
     concat (map (\<lambda>j. if i < j \<and> j \<le> length s then ends L s (Star r) j else [])
                 (ends L s r i)) @ [i]"
  by pat_completeness auto
termination
  by (relation "inv_image (less_than <*lex*> less_than)
                  (\<lambda>(L, s, r, i). (weight r, length s - i))") auto

fun seqs :: "regex list \<Rightarrow> regex" where
  "seqs [] = Eps"
| "seqs [r] = r"
| "seqs (r # rs) = Seq r (seqs rs)"

definition path_class :: "(codepoint \<times> codepoint) list" where
  "path_class = [(97, 122), (65, 90), (48, 57), (USCORE, USCORE), (ATSIGN, ATSIGN),
                 (PERCENT, PERCENT), (PLUS, PLUS), (MINUS, MINUS)]"

definition query_class :: "(codepoint \<times> codepoint) list" where
  "query_class = [(97, 122), (65, 90), (48, 57), (USCORE, USCORE), (ATSIGN, ATSIGN),
                  (PERCENT, PERCENT), (AMP, AMP), (PLUS, PLUS), (EQUALS, EQUALS),
                  (SEMI, SEMI), (MINUS, MINUS)]"

definition host_class :: "(codepoint \<times> codepoint) list" where
  "host_class = [(97, 122), (65, 90), (48, 57), (DOT, DOT), (MINUS, MINUS)]"

definition ipv6_class :: "(codepoint \<times> codepoint) list" where
  "ipv6_class = [(97, 102), (65, 70), (48, 57), (COLON, COLON)]"

definition url_group :: regex where
  "url_group = seqs
     [Chr 104, Chr 116, Chr 116, Chr 112, Opt (Chr 115), Chr COLON, Chr SLASH, Chr SLASH,
      Alt (Plus (Cls host_class)) (seqs [Chr LBRACK, Plus (Cls ipv6_class), Chr RBRACK]),
      Opt (Seq (Chr COLON) (Plus (Cls [(48, 57)]))),
      Star (seqs [Chr SLASH, Star (Cls path_class), Dot_any, Star (Cls path_class)]),
      Opt (seqs [Chr QMARK, Star (Cls query_class), Star (Cls query_class)]),
      Opt (seqs [Chr HASH, Star (Cls query_class), Star (Cls query_class)])]"

definition url_pattern :: regex where
  "url_pattern = seqs [Bnd, url_group, Bnd]"

definition match_at :: "pylib \<Rightarrow> str \<Rightarrow> nat \<Rightarrow> nat option" where
  "match_at L s i = (case ends L s url_pattern i of [] \<Rightarrow> None | e # es \<Rightarrow> Some e)"

function search :: "pylib \<Rightarrow> str \<Rightarrow> nat \<Rightarrow> (nat \<times> nat) option" where
  "search L s pos =
     (if length s < pos then None
      else (case match_at L s pos of
              Some e \<Rightarrow> Some (pos, e)
            | None \<Rightarrow> search L s (Suc pos)))"
  by pat_completeness auto
termination
  by (relation "measure (\<lambda>(L, s, pos). Suc (length s) - pos)") auto

declare ends.simps [simp del]

declare search.simps [simp del]

lemma ends_bounds: "i \<le> length s \<Longrightarrow> e \<in> set (ends L s r i) \<Longrightarrow> i \<le> e \<and> e \<le> length s"
proof (induction L s r i arbitrary: e rule: ends.induct)
  case (1 L s i)
  then show ?case by (simp add: ends.simps(1))
next
  case (2 L s c i)
  then show ?case by (simp add: ends.simps(2) split: if_splits)
next
  case (3 L s rs i)
  then show ?case by (simp add: ends.simps(3) split: if_splits)
next
  case (4 L s i)
  then show ?case by (simp add: ends.simps(4) split: if_splits)
next
  case (5 L s i)
  then show ?case by (simp add: ends.simps(5) split: if_splits)
next
  case (6 L s r1 r2 i)
  from "6.prems"(2) obtain j where j: "j \<in> set (ends L s r1 i)" "e \<in> set (ends L s r2 j)"
    by (auto simp: ends.simps(6))
  from "6.IH"(1)[OF "6.prems"(1) j(1)] have "i \<le> j" "j \<le> length s" by simp_all
  with "6.IH"(2)[OF j(1) _ j(2)] show ?case by simp
next
  case (7 L s r1 r2 i)
  from "7.prems"(2) have "e \<in> set (ends L s r1 i) \<or> e \<in> set (ends L s r2 i)"
    by (simp add: ends.simps(7))
  with "7.IH" "7.prems"(1) show ?case by blast
next
  case (8 L s r i)
  from "8.prems"(2) have "e \<in> set (ends L s r i) \<or> e = i"
    by (auto simp: ends.simps(8))
  with "8.IH" "8.prems"(1) show ?case by auto
next
  case (9 L s r i)
  from "9.prems"(2) obtain j where j: "j \<in> set (ends L s r i)" "e \<in> set (ends L s (Star r) j)"
    by (auto simp: ends.simps(9))
  from "9.IH"(1)[OF "9.prems"(1) j(1)] have "i \<le> j" "j \<le> length s" by simp_all
  with "9.IH"(2)[OF j(1) _ j(2)] show ?case by simp
next
  case (10 L s r i)
  from "10.prems"(2) have "e = i \<or>
      (\<exists>j. j \<in> set (ends L s r i) \<and> i < j \<and> j \<le> length s \<and> e \<in> set (ends L s (Star r) j))"
    by (auto simp: ends.simps(10)[of L s r i] split: if_splits)
  then show ?case
  proof
    assume "e = i"
    with "10.prems"(1) show ?thesis by simp
  next
    assume "\<exists>j. j \<in> set (ends L s r i) \<and> i < j \<and> j \<le> length s \<and> e \<in> set (ends L s (Star r) j)"
    then obtain j where j: "j \<in> set (ends L s r i)" "i < j" "j \<le> length s"
        "e \<in> set (ends L s (Star r) j)"
      by blast
    from j(2) j(3) have c: "i < j \<and> j \<le> length s" by simp
    from "10.IH"(2)[OF j(1) c j(3) j(4)] j(2) show ?thesis by simp
  qed
qed

lemma search_bounds:
  "search L s pos = Some (st, e) \<Longrightarrow> pos \<le> st \<and> st \<le> e \<and> e \<le> length s \<and> match_at L s st = Some e"
proof (induction L s pos rule: search.induct)
  case (1 L s pos)
  show ?case
  proof (cases "match_at L s pos")
    case None
    with "1.prems" have le: "\<not> length s < pos" and "search L s (Suc pos) = Some (st, e)"
      by (auto simp: search.simps[of L s pos] split: if_splits)
    with "1.IH"[OF le None] show ?thesis by auto
  next
    case (Some a)
    with "1.prems" have le: "pos \<le> length s" and eq: "st = pos" "a = e"
      by (auto simp: search.simps[of L s pos] split: if_splits)
    from Some eq have "e \<in> set (ends L s url_pattern pos)"
      by (auto simp: match_at_def split: list.splits)
    with ends_bounds[OF le] Some eq show ?thesis by auto
  qed
qed

text \<open>
  \<^verbatim>\<open>url_pattern.sub(replace_url, line)\<close>: the text before each match, the replacement of
  the match, and so on from the end of the match. After an empty match the scan copies
  one character and goes on behind it.
\<close>

function sub_from :: "pylib \<Rightarrow> (str \<Rightarrow> str) \<Rightarrow> str \<Rightarrow> nat \<Rightarrow> str" where
  "sub_from L repl s pos =
     (case search L s pos of
        None \<Rightarrow> drop pos s
      | Some (st, e) \<Rightarrow>
          take (st - pos) (drop pos s) @ repl (take (e - st) (drop st s)) @
          (if st < e then sub_from L repl s e
           else if st < length s then s ! st # sub_from L repl s (Suc st)
           else []))"
  by pat_completeness auto
termination
proof (relation "measure (\<lambda>(L, repl, s, pos). Suc (length s) - pos)", goal_cases)
  case 1
  show ?case by simp
next
  case (2 L repl s pos x2 st e)
  then have "search L s pos = Some (st, e)" by simp
  from search_bounds[OF this] 2 show ?case by auto
next
  case (3 L repl s pos x2 st e)
  then have "search L s pos = Some (st, e)" by simp
  from search_bounds[OF this] 3 show ?case by auto
qed

declare sub_from.simps [simp del]

definition process_line :: "pylib \<Rightarrow> str \<Rightarrow> str list \<Rightarrow> str \<Rightarrow> str" where
  "process_line L line params_to_redact redaction_string =
     sub_from L (\<lambda>url. redact_url_parameters L url params_to_redact redaction_string) line 0"

definition lib_plain :: pylib where
  "lib_plain = \<lparr>unicode_isalnum = (\<lambda>c. False), nfkc_rejects = (\<lambda>nl. False),
                 bracketed_host_rejects = (\<lambda>h. False)\<rparr>"

section \<open>The candidates of a line\<close>

text \<open>
  \<^verbatim>\<open>url_pattern.finditer(line)\<close>: the spans of the matches that \<^verbatim>\<open>sub\<close> replaces, from
  left to right; \<open>candidates\<close> are the matched substrings (\<^verbatim>\<open>match.group(1)\<close>).
\<close>

function finditer :: "pylib \<Rightarrow> str \<Rightarrow> nat \<Rightarrow> (nat \<times> nat) list" where
  "finditer L s pos =
     (case search L s pos of
        None \<Rightarrow> []
      | Some (st, e) \<Rightarrow>
          (st, e) # (if st < e then finditer L s e
                     else if st < length s then finditer L s (Suc st)
                     else []))"
  by pat_completeness auto
termination
proof (relation "measure (\<lambda>(L, s, pos). Suc (length s) - pos)", goal_cases)
  case 1
  show ?case by simp
next
  case (2 L s pos x2 st e)
  then have "search L s pos = Some (st, e)" by simp
  from search_bounds[OF this] 2 show ?case by auto
next
  case (3 L s pos x2 st e)
  then have "search L s pos = Some (st, e)" by simp
  from search_bounds[OF this] 3 show ?case by auto
qed

declare finditer.simps [simp del]



definition candidates :: "pylib \<Rightarrow> str \<Rightarrow> str list" where
  "candidates L line =
     map (\<lambda>span. take (snd span - fst span) (drop (fst span) line)) (finditer L line 0)"

text \<open>\<open>sub\<close> stands in \<open>s\<close> at position \<open>i\<close>; \<open>sub\<close> is a substring of \<open>s\<close>.\<close>

definition starts_at :: "str \<Rightarrow> str \<Rightarrow> nat \<Rightarrow> bool" where
  "starts_at sub s i = (take (length sub) (drop i s) = sub)"

definition contains :: "str \<Rightarrow> str \<Rightarrow> bool" where
  "contains sub s = list_ex (starts_at sub s) [0..<Suc (length s)]"

definition no_candidate :: "pylib \<Rightarrow> str \<Rightarrow> bool" where
  "no_candidate L line = list_all (\<lambda>i. match_at L line i = None) [0..<Suc (length line)]"

section \<open>Evaluation on concrete inputs\<close>

lemmas model_defs =
  str_of_def is_ascii_def is_digit_def is_upper_def is_lower_def is_alpha_def is_hex_def
  ascii_lower_def before_def after_def uses_netloc_def uses_params_def scheme_char_def
  lstrip_c0_def remove_unsafe_def has_scheme_def split_scheme_def not_delim_def
  split_netloc_def check_brackets_def checknetloc_def split_fragment_def split_query_def
  urlsplit_def last_segment_def upto_last_slash_def splitparams_def urlparse_def
  urlunsplit_def urlunparse_def utf8_encode_cp_def is_cont_def second_ok3_def
  second_ok4_def hexval_def unquote_def unquote_plus_def always_safe_def hexdigit_def
  quoter_def quote_from_bytes_def quote_def quote_plus_def parse_field_def parse_qsl_def
  dict_has_def dict_get_def dict_set_def parse_qs_add_def parse_qs_def urlencode_def
  redact_try_def logging_error_def redact_url_parameters_run_def redact_url_parameters_def
  in_class_def is_word_def at_boundary_def path_class_def query_class_def host_class_def
  ipv6_class_def url_group_def url_pattern_def match_at_def process_line_def lib_plain_def
  candidates_def starts_at_def contains_def no_candidate_def
  Let_def

section \<open>Facts about the scan\<close>

lemma starts_at_Nil: "starts_at [] s i"
  by (simp add: starts_at_def)

lemma starts_at_Cons:
  "starts_at (c # sub) s i \<longleftrightarrow> i < length s \<and> s ! i = c \<and> starts_at sub s (Suc i)"
proof (cases "i < length s")
  case True
  then have "drop i s = s ! i # drop (Suc i) s" by (simp add: Cons_nth_drop_Suc)
  then show ?thesis using True by (auto simp: starts_at_def)
next
  case False
  then show ?thesis by (simp add: starts_at_def)
qed

lemma concat_map_concat:
  "concat (map f (concat (map g xs))) = concat (map (\<lambda>x. concat (map f (g x))) xs)"
  by (induction xs) simp_all

lemma ends_Seq_assoc: "ends L s (Seq (Seq a b) c) i = ends L s (Seq a (Seq b c)) i"
proof -
  have "ends L s (Seq b c) = (\<lambda>x. concat (map (ends L s c) (ends L s b x)))"
    by (rule ext) (simp add: ends.simps(6))
  then show ?thesis
    by (simp add: ends.simps(6)[of L s "Seq a b" c] ends.simps(6)[of L s a b]
                  ends.simps(6)[of L s a "Seq b c"] concat_map_concat)
qed

lemma contains_iff: "contains sub s \<longleftrightarrow> (\<exists>i\<le>length s. starts_at sub s i)"
  by (auto simp add: contains_def list_ex_iff less_Suc_eq_le simp del: upt_Suc)

lemma ends_Seq_Bnd: "e \<in> set (ends L s (Seq Bnd r) i) \<Longrightarrow> e \<in> set (ends L s r i)"
  by (auto simp: ends.simps(5,6) split: if_splits)

lemma chr_step:
  "e \<in> set (ends L s (Seq (Seq (Chr c) r) r') i) \<Longrightarrow>
   i < length s \<and> s ! i = c \<and> e \<in> set (ends L s (Seq r r') (Suc i))"
  by (auto simp: ends_Seq_assoc ends.simps(2) ends.simps(6)[of L s "Chr c"] split: if_splits)

lemma opt_step:
  "e \<in> set (ends L s (Seq (Seq (Opt (Chr c)) r) r') i) \<Longrightarrow>
   (i < length s \<and> s ! i = c \<and> e \<in> set (ends L s (Seq r r') (Suc i))) \<or>
   e \<in> set (ends L s (Seq r r') i)"
  by (auto simp: ends_Seq_assoc ends.simps(2,8) ends.simps(6)[of L s "Opt (Chr c)"]
           split: if_splits)

lemma colon_slash_slash:
  assumes "e \<in> set (ends L s
             (Seq (Seq (Chr COLON) (Seq (Chr SLASH) (Seq (Chr SLASH) R))) R') j)"
  shows "j < length s \<and> s ! j = COLON \<and> Suc j < length s \<and> s ! Suc j = SLASH \<and>
         Suc (Suc j) < length s \<and> s ! Suc (Suc j) = SLASH \<and> j + 3 \<le> e"
proof -
  note a = chr_step[OF assms]
  note b = chr_step[OF conjunct2[OF conjunct2[OF a]]]
  note c = chr_step[OF conjunct2[OF conjunct2[OF b]]]
  from c have "Suc (Suc (Suc j)) \<le> length s" by simp
  from ends_bounds[OF this conjunct2[OF conjunct2[OF c]]] have "j + 3 \<le> e" by simp
  with a b c show ?thesis by simp
qed

lemma http_prefix:
  assumes "e \<in> set (ends L s
     (Seq (Seq (Chr 104) (Seq (Chr 116) (Seq (Chr 116) (Seq (Chr 112) (Seq (Opt (Chr 115))
        (Seq (Chr COLON) (Seq (Chr SLASH) (Seq (Chr SLASH) R)))))))) R') i)"
  shows "(starts_at (str_of ''http://'') s i \<or> starts_at (str_of ''https://'') s i) \<and>
         i + 7 \<le> e"
proof -
  note a = chr_step[OF assms]
  note b = chr_step[OF conjunct2[OF conjunct2[OF a]]]
  note c = chr_step[OF conjunct2[OF conjunct2[OF b]]]
  note d = chr_step[OF conjunct2[OF conjunct2[OF c]]]
  note o = opt_step[OF conjunct2[OF conjunct2[OF d]]]
  from o show ?thesis
  proof
    assume x: "Suc (Suc (Suc (Suc i))) < length s \<and> s ! Suc (Suc (Suc (Suc i))) = 115 \<and>
      e \<in> set (ends L s (Seq (Seq (Chr COLON) (Seq (Chr SLASH) (Seq (Chr SLASH) R))) R')
                 (Suc (Suc (Suc (Suc (Suc i))))))"
    note t = colon_slash_slash[OF conjunct2[OF conjunct2[OF x]]]
    from a b c d x t have "starts_at (str_of ''https://'') s i"
      by (simp add: str_of_def starts_at_Cons starts_at_Nil)
    with t show ?thesis by simp
  next
    assume y: "e \<in> set (ends L s (Seq (Seq (Chr COLON) (Seq (Chr SLASH) (Seq (Chr SLASH) R))) R')
                 (Suc (Suc (Suc (Suc i)))))"
    note t = colon_slash_slash[OF y]
    from a b c d t have "starts_at (str_of ''http://'') s i"
      by (simp add: str_of_def starts_at_Cons starts_at_Nil)
    with t show ?thesis by simp
  qed
qed

lemma match_prefix:
  assumes "e \<in> set (ends L s url_pattern i)"
  shows "(starts_at (str_of ''http://'') s i \<or> starts_at (str_of ''https://'') s i) \<and>
         i + 7 \<le> e"
proof -
  from assms have "e \<in> set (ends L s (Seq url_group Bnd) i)"
    by (simp add: url_pattern_def ends_Seq_Bnd)
  then show ?thesis
    unfolding url_group_def seqs.simps by (rule http_prefix)
qed

lemma match_at_Some:
  "match_at L s i = Some e \<Longrightarrow> e \<in> set (ends L s url_pattern i)"
  by (auto simp: match_at_def split: list.splits)


lemma search_None:
  "list_all (\<lambda>i. match_at L s i = None) [pos..<Suc (length s)] \<Longrightarrow> search L s pos = None"
proof (induction L s pos rule: search.induct)
  case (1 L s pos)
  show ?case
  proof (cases "length s < pos")
    case True
    then show ?thesis by (simp add: search.simps[of L s pos])
  next
    case False
    then have up: "[pos..<Suc (length s)] = pos # [Suc pos..<Suc (length s)]"
      by (simp add: upt_conv_Cons)
    with "1.prems" have n: "match_at L s pos = None"
      and r: "list_all (\<lambda>i. match_at L s i = None) [Suc pos..<Suc (length s)]"
      by simp_all
    from "1.IH"[OF False n r] n False show ?thesis
      by (simp add: search.simps[of L s pos])
  qed
qed




section \<open>What the body of the try can raise\<close>

lemma urlsplit_raises:
  "urlsplit L url = Inl e \<Longrightarrow>
   e = Invalid_IPv6_URL \<or> e = Invalid_bracketed_host \<or> e = Invalid_netloc_NFKC"
  by (auto simp: urlsplit_def Let_def check_brackets_def checknetloc_def
           split: option.splits if_splits)

lemma urlparse_raises:
  "urlparse L url = Inl e \<Longrightarrow>
   e = Invalid_IPv6_URL \<or> e = Invalid_bracketed_host \<or> e = Invalid_netloc_NFKC"
  by (auto simp: urlparse_def dest: urlsplit_raises split: sum.splits prod.splits if_splits)

lemma urlencode_raises: "urlencode d = Inl e \<Longrightarrow> e = UnicodeEncodeError"
  by (auto simp: urlencode_def split: option.splits)

lemma redact_try_raises:
  "redact_try L url ps tok = Inl e \<Longrightarrow>
   e = Invalid_IPv6_URL \<or> e = Invalid_bracketed_host \<or> e = Invalid_netloc_NFKC \<or>
   e = UnicodeEncodeError"
  by (auto simp: redact_try_def dest: urlparse_raises urlencode_raises split: sum.splits)

lemma redact_try_caught: "redact_try L url ps tok = Inl e \<Longrightarrow> is_Exception e"
  by (auto dest: redact_try_raises)

lemma urlparse_caught: "urlparse L url = Inl e \<Longrightarrow> is_Exception e"
  by (auto dest: urlparse_raises)

section \<open>The identity fallback\<close>

text \<open>
  Claim C2, as amended. On every input string on which URL parsing fails, the redactor
  returns the original string exactly and raises nothing. The only other effect is the
  log record of \<^verbatim>\<open>logging.error\<close>: one record at level ERROR (not WARNING) that names
  the URL and the exception, when the root logger's level is ERROR or lower, and no
  record when it is CRITICAL.
\<close>

theorem parse_failure_identity:
  "urlparse L url = Inl e \<Longrightarrow>
   redact_url_parameters_run L root_level url ps tok
     = (Inr url,
        if level_no root_level \<le> level_no ERROR
        then [\<lparr>level = ERROR, about_url = url, raised = e\<rparr>] else []) \<and>
   redact_url_parameters L url ps tok = url"
proof -
  assume h: "urlparse L url = Inl e"
  then have t: "redact_try L url ps tok = Inl e"
    by (simp add: redact_try_def)
  from urlparse_caught[OF h] t show ?thesis
    by (simp add: redact_url_parameters_run_def redact_url_parameters_def logging_error_def)
qed

theorem parse_failure_identity_witness:
  "urlparse lib_plain (str_of ''http://[x'') = Inl Invalid_IPv6_URL \<and>
   redact_url_parameters_run lib_plain INFO (str_of ''http://[x'') [str_of ''api_key'']
       (str_of ''REDACTED'')
     = (Inr (str_of ''http://[x''),
        [\<lparr>level = ERROR, about_url = str_of ''http://[x'', raised = Invalid_IPv6_URL\<rparr>]) \<and>
   redact_url_parameters lib_plain (str_of ''http://[x'') [str_of ''api_key'']
       (str_of ''REDACTED'')
     = str_of ''http://[x''"
proof -
  have h: "urlparse lib_plain (str_of ''http://[x'') = Inl Invalid_IPv6_URL"
    by (simp add: model_defs)
  from parse_failure_identity[OF h, of INFO] h show ?thesis by simp
qed

text \<open>
  The claim as stated fails: on \<^verbatim>\<open>http://[x\<close> parsing fails, and what is logged under
  the root level WARNING is one record at level ERROR, not a warning; under the root level
  CRITICAL nothing is logged.
\<close>

theorem parse_failure_logs_error_not_warning:
  "urlparse lib_plain (str_of ''http://[x'') = Inl Invalid_IPv6_URL \<and>
   map level (snd (redact_url_parameters_run lib_plain WARNING (str_of ''http://[x'')
                     [str_of ''api_key''] (str_of ''REDACTED''))) = [ERROR] \<and>
   map level (snd (redact_url_parameters_run lib_plain WARNING (str_of ''http://[x'')
                     [str_of ''api_key''] (str_of ''REDACTED''))) \<noteq> [WARNING] \<and>
   snd (redact_url_parameters_run lib_plain CRITICAL (str_of ''http://[x'')
          [str_of ''api_key''] (str_of ''REDACTED'')) = []"
  by (simp add: model_defs)

section \<open>Totality\<close>

text \<open>
  Claim C9. The redactor is total: for every URL, parameter list and token (and every
  root logger level) a call returns a string and raises nothing. The body of the
  \<^verbatim>\<open>try\<close> raises only the \<^verbatim>\<open>ValueError\<close>s of \<^verbatim>\<open>urlparse\<close> and the \<^verbatim>\<open>UnicodeEncodeError\<close> of
  \<^verbatim>\<open>urlencode\<close>; each derives from \<^verbatim>\<open>Exception\<close>, so the handler catches it and the call
  returns the original URL; otherwise it returns the result of the body.
\<close>

theorem redact_total:
  "fst (redact_url_parameters_run L root_level url ps tok)
     = Inr (redact_url_parameters L url ps tok) \<and>
   (redact_url_parameters L url ps tok = url \<or>
    redact_try L url ps tok = Inr (redact_url_parameters L url ps tok))"
proof (cases "redact_try L url ps tok")
  case (Inl e)
  from redact_try_caught[OF Inl] Inl show ?thesis
    by (simp add: redact_url_parameters_run_def redact_url_parameters_def)
next
  case (Inr r)
  then show ?thesis
    by (simp add: redact_url_parameters_run_def redact_url_parameters_def)
qed

theorem redact_total_witness:
  "fst (redact_url_parameters_run lib_plain INFO (str_of ''http://h/?k=v'') [str_of ''k'']
          [0xDC80]) = Inr (str_of ''http://h/?k=v'') \<and>
   redact_try lib_plain (str_of ''http://h/?k=v'') [str_of ''k''] [0xDC80]
     = Inl UnicodeEncodeError \<and>
   fst (redact_url_parameters_run lib_plain INFO (str_of ''http://h/?k=v'') [str_of ''k'']
          (str_of ''X'')) = Inr (str_of ''http://h/?k=X'')"
proof -
  have h: "redact_try lib_plain (str_of ''http://h/?k=v'') [str_of ''k''] [0xDC80]
             = Inl UnicodeEncodeError"
    by (simp add: model_defs)
  have g: "redact_try lib_plain (str_of ''http://h/?k=v'') [str_of ''k''] (str_of ''X'')
             = Inr (str_of ''http://h/?k=X'')"
    by (simp add: model_defs)
  from redact_total[of lib_plain INFO "str_of ''http://h/?k=v''" "[str_of ''k'']" "[0xDC80]"]
       redact_total[of lib_plain INFO "str_of ''http://h/?k=v''" "[str_of ''k'']" "str_of ''X''"]
       h g
  show ?thesis by (simp add: redact_url_parameters_def)
qed

section \<open>Lines without a URL\<close>

text \<open>
  Claim C6. A line that contains no substring matched by the URL pattern, in particular
  any line that contains neither \<^verbatim>\<open>http://\<close> nor \<^verbatim>\<open>https://\<close>, is returned by
  \<^verbatim>\<open>process_line\<close> identically, character for character.
\<close>

theorem no_url_unchanged:
  "no_candidate L line \<or>
   (\<not> contains (str_of ''http://'') line \<and> \<not> contains (str_of ''https://'') line) \<Longrightarrow>
   process_line L line ps tok = line"
proof -
  assume h: "no_candidate L line \<or>
    (\<not> contains (str_of ''http://'') line \<and> \<not> contains (str_of ''https://'') line)"
  have "no_candidate L line"
  proof (rule disjE[OF h])
    assume "no_candidate L line" then show ?thesis .
  next
    assume n: "\<not> contains (str_of ''http://'') line \<and> \<not> contains (str_of ''https://'') line"
    have "match_at L line i = None" if "i < Suc (length line)" for i
    proof (cases "match_at L line i")
      case None then show ?thesis .
    next
      case (Some e)
      from match_prefix[OF match_at_Some[OF Some]]
      have "starts_at (str_of ''http://'') line i \<or> starts_at (str_of ''https://'') line i"
        by simp
      with that n show ?thesis
        by (auto simp: contains_iff less_Suc_eq_le)
    qed
    then show ?thesis by (simp add: no_candidate_def list_all_iff)
  qed
  then have "search L line 0 = None"
    by (simp add: no_candidate_def search_None)
  then show ?thesis
    by (simp add: process_line_def sub_from.simps[of L _ line 0])
qed


theorem no_url_unchanged_witness:
  "\<not> contains (str_of ''http://'') (str_of ''No links here.'') \<and>
   \<not> contains (str_of ''https://'') (str_of ''No links here.'') \<and>
   process_line lib_plain (str_of ''No links here.'') [str_of ''api_key''] (str_of ''REDACTED'')
     = str_of ''No links here.''"
proof -
  have h: "\<not> contains (str_of ''http://'') (str_of ''No links here.'') \<and>
           \<not> contains (str_of ''https://'') (str_of ''No links here.'')"
    by (simp add: contains_def starts_at_def str_of_def)
  from no_url_unchanged[of lib_plain "str_of ''No links here.''" "[str_of ''api_key'']"
         "str_of ''REDACTED''"] h
  show ?thesis by simp
qed

section \<open>Substitution at the spans\<close>





section \<open>The path part of the pattern\<close>

text \<open>
  Claim C5 does not hold of the code. The dot between the two classes of a path segment
  is not escaped, so it matches any character but a newline: in the line
  \<^verbatim>\<open>see http://a/x y z\<close> the candidate is \<^verbatim>\<open>http://a/x y\<close>, whose path holds a space; and
  in \<^verbatim>\<open>http://h/p?k=v\<close> the dot takes the \<^verbatim>\<open>?\<close>, the candidate ends before \<^verbatim>\<open>=v\<close> and the
  value is not redacted.
\<close>

theorem candidate_path_any_character:
  "candidates lib_plain (str_of ''see http://a/x y z'') = [str_of ''http://a/x y''] \<and>
   candidates lib_plain (str_of ''http://h/p?k=v'') = [str_of ''http://h/p?k''] \<and>
   process_line lib_plain (str_of ''http://h/p?k=v'') [str_of ''k''] (str_of ''REDACTED'')
     = str_of ''http://h/p=v''"
  by (simp add: model_defs search.simps ends.simps finditer.simps sub_from.simps)

end
